theory Spec2Isabelle
  imports Main
begin

text \<open>
  A model of \<open>ics_caldav_sync.py\<close>: the class \<open>ICSToCalDAV\<close>, which copies the events
  of an ICS feed into a CalDAV calendar and deletes from it what the feed no longer
  has, and the loop of \<open>main\<close> around it. The libraries and the two servers are the
  \<open>world\<close> of a cycle; a run is the list of the operations it starts, together with
  the exception that ended it, if any.
\<close>

section \<open>Exceptions, timestamps and events\<close>

text \<open>
  The exceptions that can reach \<open>ICSToCalDAV\<close>. \<open>ValueError\<close> stands for the
  builtin class and its subclasses (what \<open>except ValueError\<close> catches),
  \<open>ValidateError\<close> for \<open>vobject.base.ValidateError\<close>, \<open>ReportError\<close> for
  \<open>caldav.lib.error.ReportError\<close>, \<open>DAVError\<close> for the other errors of the CalDAV
  client, \<open>ConnectionError\<close> for a failure of the HTTP transport, \<open>ParseError\<close> for a
  feed the \<open>ics\<close> parser rejects, \<open>RuntimeError\<close> for a \<open>StopIteration\<close> leaving
  a generator expression, and \<open>AttributeError\<close> for an attribute read on \<open>None\<close>.
\<close>

datatype exn =
    ValidateError
  | ValueError
  | TypeError
  | ReportError
  | RuntimeError
  | DAVError
  | ConnectionError
  | ParseError
  | AttributeError

text \<open>
  A \<open>datetime.datetime\<close>: the wall-clock fields as one integer (microseconds), and the
  \<open>tzinfo\<close> attribute. A time zone is its \<open>utcoffset\<close> method: from the wall-clock
  value to an offset in microseconds, or to \<open>None\<close>.
\<close>

type_synonym tz = "int \<Rightarrow> int option"

record datetime =
  wall :: int
  tzinfo :: "tz option"

definition utc :: tz where
  "utc = (\<lambda>_. Some 0)"

definition utcoffset :: "datetime \<Rightarrow> int option" where
  "utcoffset d = (case tzinfo d of None \<Rightarrow> None | Some z \<Rightarrow> z (wall d))"

text \<open>
  \<open>a > b\<close> on datetimes. Two naive values compare by their wall clock, two aware values
  after subtracting their offsets, and a naive one against an aware one raises
  \<open>TypeError\<close>. (Python compares the wall clocks when both operands carry the very same
  \<open>tzinfo\<close> object; the only aware left operand below is in UTC, where the two agree.)
\<close>

definition dt_gt :: "datetime \<Rightarrow> datetime \<Rightarrow> exn + bool" where
  "dt_gt a b =
     (case utcoffset a of
        None \<Rightarrow>
          (case utcoffset b of
             None \<Rightarrow> Inr (wall b < wall a)
           | Some ob \<Rightarrow> Inl TypeError)
      | Some oa \<Rightarrow>
          (case utcoffset b of
             None \<Rightarrow> Inl TypeError
           | Some ob \<Rightarrow> Inr (wall b - ob < wall a - oa)))"

text \<open>
  An \<open>ics.Event\<close>, as far as \<open>synchronise\<close> reads it: \<open>uid\<close>, the begin, the value of
  the \<open>end\<close> property, and \<open>timespan.is_all_day()\<close>. Begin and end are \<open>None\<close> for
  a VEVENT that has neither DTSTART nor DTEND.
\<close>

record event =
  uid :: string
  ev_begin :: "datetime option"
  ev_end :: "datetime option"
  is_all_day :: bool

text \<open>
  \<open>Event.replace_timezone\<close> of the \<open>ics\<close> library: \<open>datetime.replace(tzinfo=...)\<close> on
  the begin and the end that are there, which keeps the wall-clock fields and changes
  the zone only.
\<close>

definition replace_tzinfo :: "tz \<Rightarrow> datetime \<Rightarrow> datetime" where
  "replace_tzinfo z d = d\<lparr>tzinfo := Some z\<rparr>"

definition replace_timezone :: "tz \<Rightarrow> event \<Rightarrow> event" where
  "replace_timezone z e =
     e\<lparr>ev_begin := map_option (replace_tzinfo z) (ev_begin e),
       ev_end := map_option (replace_tzinfo z) (ev_end e)\<rparr>"

section \<open>Configuration and the world of one cycle\<close>

text \<open>
  The three settings \<open>synchronise\<close> reads. \<open>timezone\<close> is the result of
  \<open>dateutil.tz.gettz\<close>, or \<open>None\<close> when no override is configured.
\<close>

record config =
  sync_all :: bool
  keep_local :: bool
  timezone :: "tz option"

text \<open>
  A resource of the destination calendar, already parsed: the UIDs of the events that
  \<open>ics.Calendar(e.data).events\<close> yields, in order (none for a resource without a
  VEVENT), and the instant (UTC, microseconds) at which its last occurrence ends.
\<close>

record resource =
  res_uids :: "string list"
  res_end :: int

text \<open>
  Everything outside the program that one cycle depends on: the three clock reads
  (\<open>datetime.now()\<close>, \<open>datetime.now(utc)\<close>, \<open>arrow.utcnow()\<close>), the outcome of looking
  the destination calendar up, of the HTTP GET of the feed and of parsing it, the
  content of the destination calendar and whether listing it raises, the serialiser
  behind \<open>_wrap\<close>, and the outcomes of \<open>save_event\<close> and \<open>delete\<close>.
\<close>

record world =
  now_naive :: int
  now_aware :: int
  utcnow :: int
  calendar_lookup :: "exn option"
  remote_get :: "exn + string"
  ics_parse :: "string \<Rightarrow> exn + event list"
  local_events :: "resource list"
  list_error :: "exn option"
  serialize :: "event \<Rightarrow> exn + string"
  save_event :: "string \<Rightarrow> exn option"
  calendar_url :: string
  delete :: "string \<Rightarrow> exn option"

text \<open>
  What a run does, in order: \<open>save_event\<close> called with the document of an event (the
  create operation submitted to the destination), the logged exception of a skipped
  event, a delete request sent for an identity, and the log lines.
\<close>

datatype action =
    Create event
  | LogException event exn
  | Delete string
  | LogCritical
  | LogInfo string

definition prepend :: "action list \<Rightarrow> action list \<times> 'r \<Rightarrow> action list \<times> 'r" where
  "prepend tr r = (tr @ fst r, snd r)"

section \<open>The constructor\<close>

text \<open>
  \<open>__init__\<close>: looks the destination calendar up, then downloads and parses the feed.
  The result is \<open>self.remote_calendar.events\<close>, or the exception raised.
\<close>

definition init :: "world \<Rightarrow> exn + event list" where
  "init w =
     (case calendar_lookup w of
        Some x \<Rightarrow> Inl x
      | None \<Rightarrow>
          (case remote_get w of
             Inl x \<Rightarrow> Inl x
           | Inr text \<Rightarrow> ics_parse w text))"

section \<open>The identities of the destination\<close>

text \<open>
  \<open>calendar.search(start=t)\<close>: the resources occurring after \<open>t\<close>, that is, whose last
  occurrence ends after \<open>t\<close> (the docstring of \<open>_get_local_events_ids\<close>: "all the
  events occurring after now").
\<close>

definition search :: "world \<Rightarrow> int \<Rightarrow> resource list" where
  "search w t = filter (\<lambda>r. t < res_end r) (local_events w)"

text \<open>\<open>next(iter(ics.Calendar(e.data).events)).uid\<close>.\<close>

definition first_uid :: "resource \<Rightarrow> exn + string" where
  "first_uid r = (case res_uids r of [] \<Rightarrow> Inl RuntimeError | u # _ \<Rightarrow> Inr u)"

text \<open>
  A Python set of strings is a list without duplicates; \<open>insert_id\<close> adds to it. The
  order in which Python iterates over a set is not fixed by the source; the model
  iterates in the order of the list.
\<close>

definition insert_id :: "string \<Rightarrow> string list \<Rightarrow> string list" where
  "insert_id u us = (if u \<in> set us then us else us @ [u])"

fun collect_uids :: "string list \<Rightarrow> resource list \<Rightarrow> exn + string list" where
  "collect_uids acc [] = Inr acc"
| "collect_uids acc (r # rs) =
     (case first_uid r of
        Inl x \<Rightarrow> Inl x
      | Inr u \<Rightarrow> collect_uids (insert_id u acc) rs)"

definition get_local_events_ids :: "config \<Rightarrow> world \<Rightarrow> action list \<times> (exn + string list)" where
  "get_local_events_ids cfg w =
     (if sync_all cfg then
        (case list_error w of
           Some x \<Rightarrow> ([], Inl x)
         | None \<Rightarrow> ([], collect_uids [] (local_events w)))
      else
        (case list_error w of
           Some x \<Rightarrow> (if x = ReportError then [LogCritical] else [], Inl x)
         | None \<Rightarrow> ([], collect_uids [] (search w (utcnow w)))))"

section \<open>synchronise\<close>

text \<open>Lines 133 to 134: set the timezone, if requested and the event is not all-day.\<close>

definition set_timezone :: "config \<Rightarrow> event \<Rightarrow> event" where
  "set_timezone cfg e =
     (case timezone cfg of
        None \<Rightarrow> e
      | Some z \<Rightarrow> if \<not> is_all_day e then replace_timezone z e else e)"

text \<open>
  Lines 137 to 146: whether the loop skips the event (\<open>continue\<close>), or the exception
  raised: \<open>end.tzinfo\<close> on an end that is \<open>None\<close>, or a comparison.
\<close>

definition skip_event :: "config \<Rightarrow> world \<Rightarrow> event \<Rightarrow> exn + bool" where
  "skip_event cfg w e =
     (if \<not> sync_all cfg then
        (case ev_end e of
           None \<Rightarrow> Inl AttributeError
         | Some end_dt \<Rightarrow>
             if utcoffset end_dt \<noteq> None
             then dt_gt \<lparr>wall = now_aware w, tzinfo = Some utc\<rparr> end_dt
             else dt_gt \<lparr>wall = now_naive w, tzinfo = None\<rparr> end_dt)
      else Inr False)"

text \<open>\<open>_wrap\<close>: the serialised calendar holding the one event, or the exception.\<close>

definition wrap :: "world \<Rightarrow> event \<Rightarrow> exn + string" where
  "wrap w vevent = serialize w vevent"

text \<open>The two \<open>except\<close> clauses of lines 150 and 152.\<close>

definition caught :: "exn \<Rightarrow> bool" where
  "caught x = (x = ValidateError \<or> x = ValueError)"

text \<open>
  The loop of lines 131 to 156. In line 149 \<open>_wrap\<close> runs first; \<open>save_event\<close> is called
  only with what it returns. (The progress marks printed are left out.)
\<close>

fun create_loop :: "config \<Rightarrow> world \<Rightarrow> event list \<Rightarrow> action list \<times> exn option" where
  "create_loop cfg w [] = ([], None)"
| "create_loop cfg w (ev # evs) =
     (let remote_event = set_timezone cfg ev in
      case skip_event cfg w remote_event of
        Inl x \<Rightarrow> ([], Some x)
      | Inr True \<Rightarrow> create_loop cfg w evs
      | Inr False \<Rightarrow>
          (case wrap w remote_event of
             Inl x \<Rightarrow>
               if caught x
               then prepend [LogException remote_event x] (create_loop cfg w evs)
               else ([], Some x)
           | Inr data \<Rightarrow>
               (case save_event w data of
                  None \<Rightarrow> prepend [Create remote_event] (create_loop cfg w evs)
                | Some x \<Rightarrow>
                    if caught x
                    then prepend [Create remote_event, LogException remote_event x]
                           (create_loop cfg w evs)
                    else ([Create remote_event], Some x))))"

text \<open>The loop of lines 163 to 168, over the identities in iteration order.\<close>

fun delete_loop :: "world \<Rightarrow> string list \<Rightarrow> action list \<times> exn option" where
  "delete_loop w [] = ([], None)"
| "delete_loop w (local_event_id # ids) =
     (case delete w (calendar_url w @ local_event_id @ ''.ics'') of
        Some x \<Rightarrow> ([Delete local_event_id], Some x)
      | None \<Rightarrow> prepend [Delete local_event_id] (delete_loop w ids))"

text \<open>
  Line 161: the UIDs of all events of the feed. The loop has replaced the timezones in
  place by then.
\<close>

definition remote_events_ids :: "config \<Rightarrow> event list \<Rightarrow> string list" where
  "remote_events_ids cfg evs = remdups (map uid (map (set_timezone cfg) evs))"

text \<open>Line 162: the set difference.\<close>

definition events_to_delete :: "config \<Rightarrow> event list \<Rightarrow> string list \<Rightarrow> string list" where
  "events_to_delete cfg evs local_ids =
     filter (\<lambda>i. i \<notin> set (remote_events_ids cfg evs)) local_ids"

text \<open>Lines 159 to 168: the deletion of the stale identities, unless \<open>keep_local\<close>.\<close>

definition delete_phase :: "config \<Rightarrow> world \<Rightarrow> event list \<Rightarrow> action list \<times> exn option" where
  "delete_phase cfg w evs =
     (if \<not> keep_local cfg then
        (case get_local_events_ids cfg w of
           (lg, Inl x) \<Rightarrow> (lg, Some x)
         | (lg, Inr local_ids) \<Rightarrow>
             prepend lg (delete_loop w (events_to_delete cfg evs local_ids)))
      else ([], None))"

definition synchronise :: "config \<Rightarrow> world \<Rightarrow> event list \<Rightarrow> action list \<times> exn option" where
  "synchronise cfg w evs =
     (case create_loop cfg w evs of
        (tr, Some x) \<Rightarrow> (tr, Some x)
      | (tr, None) \<Rightarrow> prepend tr (delete_phase cfg w evs))"

section \<open>main\<close>

text \<open>\<open>ICSToCalDAV(**settings).synchronise()\<close>.\<close>

definition run_cycle :: "config \<Rightarrow> world \<Rightarrow> action list \<times> exn option" where
  "run_cycle cfg w =
     (case init w of
        Inl x \<Rightarrow> ([], Some x)
      | Inr evs \<Rightarrow> synchronise cfg w evs)"

text \<open>
  How a run of \<open>main\<close> stands: it left the loop, an exception left \<open>main\<close>, or it is
  still looping when the observation ends.
\<close>

datatype status = Exited | Raised exn | Running

text \<open>
  The \<open>while True\<close> loop of lines 207 to 222, observed for at most \<open>n\<close> cycles, from
  cycle \<open>k\<close> on; \<open>ws k\<close> is the world of cycle \<open>k\<close>. \<open>dehumanize\<close> is
  \<open>arrow.utcnow().dehumanize\<close>: the seconds until the time a phrase names, or \<open>None\<close>
  where it raises \<open>ValueError\<close>. (The sleep between two cycles is left out.)
\<close>

fun main_loop ::
  "nat \<Rightarrow> (string \<Rightarrow> int option) \<Rightarrow> config \<Rightarrow> string option \<Rightarrow> (nat \<Rightarrow> world) \<Rightarrow> nat
     \<Rightarrow> action list \<times> status" where
  "main_loop 0 dehumanize cfg sync_every ws k = ([], Running)"
| "main_loop (Suc n) dehumanize cfg sync_every ws k =
     (case (case sync_every of
              None \<Rightarrow> Inr None
            | Some phrase \<Rightarrow>
                (case dehumanize phrase of
                   None \<Rightarrow> Inl ValueError
                 | Some secs \<Rightarrow> Inr (Some secs))) of
        Inl x \<Rightarrow> ([], Raised x)
      | Inr next_run \<Rightarrow>
          (case run_cycle cfg (ws k) of
             (tr, Some x) \<Rightarrow> (LogInfo ''starting sync'' # tr, Raised x)
           | (tr, None) \<Rightarrow>
               (case next_run of
                  None \<Rightarrow>
                    (LogInfo ''starting sync'' # tr @ [LogInfo ''sync done successfully''],
                     Exited)
                | Some _ \<Rightarrow>
                    prepend
                      (LogInfo ''starting sync'' # tr @ [LogInfo ''sync done successfully''])
                      (main_loop n dehumanize cfg sync_every ws (Suc k)))))"

text \<open>
  \<open>main\<close> from line 197 on, given the settings and the value of \<open>SYNC_EVERY\<close>: the
  interval is prefixed with \<open>in\<close> and validated before the loop starts.
\<close>

definition main ::
  "nat \<Rightarrow> (string \<Rightarrow> int option) \<Rightarrow> config \<Rightarrow> string option \<Rightarrow> (nat \<Rightarrow> world)
     \<Rightarrow> action list \<times> status" where
  "main n dehumanize cfg sync_every ws =
     (case sync_every of
        None \<Rightarrow> main_loop n dehumanize cfg None ws 0
      | Some interval \<Rightarrow>
          (case dehumanize (''in '' @ interval) of
             None \<Rightarrow> ([], Raised ValueError)
           | Some _ \<Rightarrow> main_loop n dehumanize cfg (Some (''in '' @ interval)) ws 0))"

section \<open>The notions of the specification, read off a run\<close>

text \<open>The eligible events: those the loop does not skip, with their timezone set.\<close>

definition eligible :: "config \<Rightarrow> world \<Rightarrow> event list \<Rightarrow> event list" where
  "eligible cfg w evs =
     filter (\<lambda>e. skip_event cfg w e = Inr False) (map (set_timezone cfg) evs)"

text \<open>
  Whether \<open>_wrap\<close> returns a document for the event, and the exception that line 149
  raises for it, if any.
\<close>

definition wraps :: "world \<Rightarrow> event \<Rightarrow> bool" where
  "wraps w e = (case wrap w e of Inl x \<Rightarrow> False | Inr data \<Rightarrow> True)"

definition save_wrapped :: "world \<Rightarrow> event \<Rightarrow> exn option" where
  "save_wrapped w e = (case wrap w e of Inl x \<Rightarrow> Some x | Inr data \<Rightarrow> save_event w data)"

text \<open>The events submitted to the destination (\<open>save_event\<close> called), in order.\<close>

fun created :: "action list \<Rightarrow> event list" where
  "created [] = []"
| "created (Create e # tr) = e # created tr"
| "created (_ # tr) = created tr"

text \<open>The events logged as skipped, in order.\<close>

fun skipped :: "action list \<Rightarrow> event list" where
  "skipped [] = []"
| "skipped (LogException e x # tr) = e # skipped tr"
| "skipped (_ # tr) = skipped tr"

text \<open>The identities for which a delete request was sent, in order.\<close>

fun deleted :: "action list \<Rightarrow> string list" where
  "deleted [] = []"
| "deleted (Delete i # tr) = i # deleted tr"
| "deleted (_ # tr) = deleted tr"

text \<open>The number of cycles started.\<close>

definition cycles_started :: "action list \<Rightarrow> nat" where
  "cycles_started tr = length (filter (\<lambda>a. a = LogInfo ''starting sync'') tr)"

section \<open>Concrete inputs\<close>

text \<open>
  One day and one hour in microseconds. In the worlds below the three clocks read day
  2, and the local zone is UTC.
\<close>

definition day :: int where
  "day = 86400000000"

definition hour :: int where
  "hour = 3600000000"

text \<open>The zone five hours behind UTC.\<close>

definition west5 :: tz where
  "west5 = (\<lambda>_. Some (- 5 * hour))"

definition naive :: "int \<Rightarrow> datetime" where
  "naive t = \<lparr>wall = t, tzinfo = None\<rparr>"

definition aware :: "int \<Rightarrow> tz \<Rightarrow> datetime" where
  "aware t z = \<lparr>wall = t, tzinfo = Some z\<rparr>"

definition timed_event :: "string \<Rightarrow> datetime \<Rightarrow> event" where
  "timed_event u t = \<lparr>uid = u, ev_begin = Some t, ev_end = Some t, is_all_day = False\<rparr>"

definition all_day_event :: "string \<Rightarrow> datetime \<Rightarrow> event" where
  "all_day_event u t = \<lparr>uid = u, ev_begin = Some t, ev_end = Some t, is_all_day = True\<rparr>"

definition future_only :: config where
  "future_only = \<lparr>sync_all = False, keep_local = False, timezone = None\<rparr>"

definition full_sync :: config where
  "full_sync = \<lparr>sync_all = True, keep_local = False, timezone = None\<rparr>"

text \<open>Future-only mode with the events' zone overridden by \<open>west5\<close>.\<close>

definition future_west5 :: config where
  "future_west5 = \<lparr>sync_all = False, keep_local = False, timezone = Some west5\<rparr>"


text \<open>
  \<open>dehumanize\<close> at the phrases used below: arrow reads \<open>in 2 minutes\<close> as 120 seconds
  ahead. No other phrase is needed here, and this stand-in rejects them.
\<close>

definition dehumanize_en :: "string \<Rightarrow> int option" where
  "dehumanize_en phrase = (if phrase = ''in 2 minutes'' then Some 120 else None)"

text \<open>A world in which every call succeeds; the destination holds \<open>rs\<close>.\<close>

definition calm_world :: "resource list \<Rightarrow> world" where
  "calm_world rs =
     \<lparr>now_naive = 2 * day, now_aware = 2 * day, utcnow = 2 * day,
      calendar_lookup = None, remote_get = Inr ''BEGIN:VCALENDAR'',
      ics_parse = (\<lambda>_. Inr []),
      local_events = rs, list_error = None,
      serialize = (\<lambda>e. Inr (uid e)), save_event = (\<lambda>_. None),
      calendar_url = ''https://dav.example/cal/'', delete = (\<lambda>_. None)\<rparr>"

definition upcoming :: "string \<Rightarrow> resource" where
  "upcoming u = \<lparr>res_uids = [u], res_end = 3 * day\<rparr>"

definition bygone :: "string \<Rightarrow> resource" where
  "bygone u = \<lparr>res_uids = [u], res_end = day\<rparr>"

text \<open>
  The end-to-end scenario of the specification: the feed has \<open>x\<close> ending yesterday and
  \<open>y\<close> ending tomorrow, the destination lists \<open>x\<close> and \<open>z\<close>.
\<close>

definition scenario_events :: "event list" where
  "scenario_events = [timed_event ''x'' (naive day), timed_event ''y'' (naive (3 * day))]"

definition scenario_world :: world where
  "scenario_world = calm_world [upcoming ''x'', upcoming ''z'']"


text \<open>A destination where the delete request for \<open>b\<close> raises, and no other does.\<close>

definition stubborn_world :: "resource list \<Rightarrow> world" where
  "stubborn_world rs =
     (calm_world rs)\<lparr>delete := (\<lambda>url. if url = ''https://dav.example/cal/b.ics''
                                   then Some DAVError else None)\<rparr>"

text \<open>A destination that accepts every save and refuses every delete request.\<close>

definition undeletable_world :: "resource list \<Rightarrow> world" where
  "undeletable_world rs = (calm_world rs)\<lparr>delete := (\<lambda>_. Some ConnectionError)\<rparr>"

text \<open>A serialiser that rejects the event \<open>d\<close> as invalid.\<close>

definition picky_world :: "resource list \<Rightarrow> world" where
  "picky_world rs =
     (calm_world rs)\<lparr>serialize := (\<lambda>e. if uid e = ''d'' then Inl ValueError else Inr (uid e))\<rparr>"

text \<open>The worlds of a run whose first download fails.\<close>

definition offline_first :: "nat \<Rightarrow> world" where
  "offline_first k =
     (if k = 0 then (calm_world [])\<lparr>remote_get := Inl ConnectionError\<rparr>
      else (calm_world [])\<lparr>ics_parse := (\<lambda>_. Inr scenario_events)\<rparr>)"

section \<open>Reading a run\<close>

lemma created_append: "created (a @ b) = created a @ created b"
  by (induction a rule: created.induct) simp_all


lemma deleted_append: "deleted (a @ b) = deleted a @ deleted b"
  by (induction a rule: deleted.induct) simp_all

section \<open>The window test\<close>

lemma skip_event_aware:
  "\<not> sync_all cfg \<Longrightarrow> ev_end e = Some d \<Longrightarrow> utcoffset d = Some off \<Longrightarrow>
   skip_event cfg w e = Inr (wall d - off < now_aware w)"
  by (simp add: skip_event_def dt_gt_def utcoffset_def utc_def)

lemma skip_event_naive:
  "\<not> sync_all cfg \<Longrightarrow> ev_end e = Some d \<Longrightarrow> utcoffset d = None \<Longrightarrow>
   skip_event cfg w e = Inr (wall d < now_naive w)"
  by (simp add: skip_event_def dt_gt_def utcoffset_def)

lemma skip_event_no_end:
  "\<not> sync_all cfg \<Longrightarrow> ev_end e = None \<Longrightarrow> skip_event cfg w e = Inl AttributeError"
  by (simp add: skip_event_def)

lemma skip_event_sync_all: "sync_all cfg \<Longrightarrow> skip_event cfg w e = Inr False"
  by (simp add: skip_event_def)

lemma skip_event_raises:
  "skip_event cfg w e = Inl x \<longleftrightarrow> \<not> sync_all cfg \<and> ev_end e = None \<and> x = AttributeError"
proof (cases "sync_all cfg")
  case True
  then show ?thesis by (simp add: skip_event_sync_all)
next
  case False
  show ?thesis
  proof (cases "ev_end e")
    case None
    with False show ?thesis by (auto simp: skip_event_no_end)
  next
    case (Some d)
    with False show ?thesis
      by (cases "utcoffset d") (simp_all add: skip_event_aware skip_event_naive)
  qed
qed

lemma skip_event_cases:
  obtains (raises) "skip_event cfg w e = Inl AttributeError"
  | (skips) "skip_event cfg w e = Inr True"
  | (keeps) "skip_event cfg w e = Inr False"
proof (cases "skip_event cfg w e")
  case (Inl x)
  then show ?thesis using raises by (simp add: skip_event_raises)
next
  case (Inr b)
  then show ?thesis using skips keeps by (cases b) simp_all
qed

lemma uid_set_timezone: "uid (set_timezone cfg e) = uid e"
  by (simp add: set_timezone_def replace_timezone_def split: option.splits)

lemma replace_tzinfo_idem: "replace_tzinfo z (replace_tzinfo z d) = replace_tzinfo z d"
  by (simp add: replace_tzinfo_def)

lemma set_timezone_idem: "set_timezone cfg (set_timezone cfg e) = set_timezone cfg e"
  by (simp add: set_timezone_def replace_timezone_def option.map_comp comp_def
      replace_tzinfo_idem split: option.splits)

lemma set_timezone_unchanged:
  "timezone cfg = None \<or> is_all_day e \<Longrightarrow> set_timezone cfg e = e"
  by (auto simp: set_timezone_def split: option.splits)

lemma eligible_Cons:
  "eligible cfg w (ev # evs) =
     (if skip_event cfg w (set_timezone cfg ev) = Inr False
      then set_timezone cfg ev # eligible cfg w evs else eligible cfg w evs)"
  by (simp add: eligible_def)

lemma eligible_subset: "set (eligible cfg w evs) \<subseteq> set_timezone cfg ` set evs"
  by (auto simp: eligible_def)

lemma in_eligible:
  "e \<in> set evs \<Longrightarrow>
   set_timezone cfg e \<in> set (eligible cfg w evs)
     \<longleftrightarrow> skip_event cfg w (set_timezone cfg e) = Inr False"
  by (auto simp: eligible_def)

section \<open>The two loops\<close>

text \<open>What the loop does for one event that it does not skip.\<close>

lemma create_loop_kept:
  assumes "skip_event cfg w (set_timezone cfg ev) = Inr False"
  shows "create_loop cfg w (ev # evs) =
    (case save_wrapped w (set_timezone cfg ev) of
       None \<Rightarrow> prepend [Create (set_timezone cfg ev)] (create_loop cfg w evs)
     | Some x \<Rightarrow>
         if caught x
         then prepend
                ((if wraps w (set_timezone cfg ev) then [Create (set_timezone cfg ev)] else [])
                  @ [LogException (set_timezone cfg ev) x])
                (create_loop cfg w evs)
         else (if wraps w (set_timezone cfg ev) then [Create (set_timezone cfg ev)] else [],
               Some x))"
  using assms
  by (simp add: Let_def save_wrapped_def wraps_def split: sum.splits option.splits)

lemma wraps_no_exception: "save_wrapped w e = None \<Longrightarrow> wraps w e"
  by (simp add: save_wrapped_def wraps_def split: sum.splits)

lemma create_loop_skipped:
  "skip_event cfg w (set_timezone cfg ev) = Inr True \<Longrightarrow>
   create_loop cfg w (ev # evs) = create_loop cfg w evs"
  by (simp add: Let_def)

lemma create_loop_raised:
  "skip_event cfg w (set_timezone cfg ev) = Inl x \<Longrightarrow>
   create_loop cfg w (ev # evs) = ([], Some x)"
  by (simp add: Let_def)

text \<open>From here on the loop is unfolded through the three lemmas above.\<close>

declare create_loop.simps(2) [simp del]

lemma created_create_loop_complete:
  "snd (create_loop cfg w evs) = None \<Longrightarrow>
   created (fst (create_loop cfg w evs)) = filter (wraps w) (eligible cfg w evs)"
proof (induction evs)
  case Nil
  show ?case by (simp add: eligible_def)
next
  case (Cons ev evs)
  show ?case
  proof (cases rule: skip_event_cases [of cfg w "set_timezone cfg ev"])
    case raises
    with Cons.prems show ?thesis by (simp add: create_loop_raised)
  next
    case skips
    with Cons show ?thesis by (simp add: create_loop_skipped eligible_Cons)
  next
    case keeps
    with Cons show ?thesis
      by (auto simp: create_loop_kept eligible_Cons prepend_def wraps_no_exception
          split: option.splits if_splits)
  qed
qed

lemma created_create_loop_prefix:
  "created (fst (create_loop cfg w evs)) =
   take (length (created (fst (create_loop cfg w evs)))) (filter (wraps w) (eligible cfg w evs))"
proof (induction evs)
  case Nil
  show ?case by (simp add: eligible_def)
next
  case (Cons ev evs)
  show ?case
  proof (cases rule: skip_event_cases [of cfg w "set_timezone cfg ev"])
    case raises
    then show ?thesis by (simp add: create_loop_raised)
  next
    case skips
    with Cons show ?thesis by (simp add: create_loop_skipped eligible_Cons)
  next
    case keeps
    with Cons show ?thesis
      by (auto simp: create_loop_kept eligible_Cons prepend_def wraps_no_exception
          split: option.splits if_splits)
  qed
qed




lemma deleted_create_loop: "deleted (fst (create_loop cfg w evs)) = []"
proof (induction evs)
  case Nil
  show ?case by simp
next
  case (Cons ev evs)
  show ?case
  proof (cases rule: skip_event_cases [of cfg w "set_timezone cfg ev"])
    case raises
    then show ?thesis by (simp add: create_loop_raised)
  next
    case skips
    with Cons show ?thesis by (simp add: create_loop_skipped)
  next
    case keeps
    with Cons show ?thesis
      by (auto simp: create_loop_kept prepend_def deleted_append split: option.splits)
  qed
qed

lemma skip_event_local_events:
  "skip_event cfg (w\<lparr>local_events := d\<rparr>) e = skip_event cfg w e"
  by (simp add: skip_event_def split: option.splits)

lemma wrap_local_events: "wrap (w\<lparr>local_events := d\<rparr>) e = wrap w e"
  by (simp add: wrap_def)

lemma wraps_local_events: "wraps (w\<lparr>local_events := d\<rparr>) = wraps w"
  by (simp add: wraps_def wrap_local_events fun_eq_iff)

lemma create_loop_local_events:
  "create_loop cfg (w\<lparr>local_events := d\<rparr>) evs = create_loop cfg w evs"
  by (induction evs)
     (simp_all add: create_loop.simps(2) skip_event_local_events wrap_local_events Let_def
               split: sum.splits bool.splits option.splits)

lemma eligible_local_events: "eligible cfg (w\<lparr>local_events := d\<rparr>) evs = eligible cfg w evs"
  by (simp add: eligible_def skip_event_local_events)

lemma deleted_delete_loop_complete:
  "snd (delete_loop w ids) = None \<Longrightarrow> deleted (fst (delete_loop w ids)) = ids"
  by (induction ids) (auto simp: prepend_def split: option.splits)

lemma deleted_delete_loop_subset: "set (deleted (fst (delete_loop w ids))) \<subseteq> set ids"
  by (induction ids) (auto simp: prepend_def split: option.splits)

lemma created_delete_loop: "created (fst (delete_loop w ids)) = []"
  by (induction ids) (auto simp: prepend_def split: option.splits)

lemma delete_loop_stops:
  "(\<And>j. j \<in> set pre \<Longrightarrow> delete w (calendar_url w @ j @ ''.ics'') = None) \<Longrightarrow>
   delete w (calendar_url w @ i @ ''.ics'') = Some x \<Longrightarrow>
   delete_loop w (pre @ i # post) = (map Delete (pre @ [i]), Some x)"
  by (induction pre) (simp_all add: prepend_def)

lemma deleted_map_Delete: "deleted (map Delete ids) = ids"
  by (induction ids) simp_all

section \<open>The listing and the delete phase\<close>

lemma log_get_local_events_ids:
  "deleted (fst (get_local_events_ids cfg w)) = []"
  "created (fst (get_local_events_ids cfg w)) = []"
  "skipped (fst (get_local_events_ids cfg w)) = []"
  by (auto simp: get_local_events_ids_def split: option.splits)

lemma set_collect_uids:
  "collect_uids acc rs = Inr ids \<Longrightarrow>
   set ids = set acc \<union> {u. \<exists>r\<in>set rs. first_uid r = Inr u}"
proof (induction rs arbitrary: acc)
  case Nil
  then show ?case by auto
next
  case (Cons r rs)
  from Cons.prems obtain u where u: "first_uid r = Inr u"
    and rest: "collect_uids (insert_id u acc) rs = Inr ids"
    by (auto split: sum.splits)
  from Cons.IH [OF rest] u show ?case
    by (auto simp: insert_id_def split: if_splits)
qed

lemma set_remote_events_ids: "set (remote_events_ids cfg evs) = uid ` set evs"
  by (auto simp: remote_events_ids_def uid_set_timezone image_iff)

lemma set_events_to_delete:
  "set (events_to_delete cfg evs ids) = set ids - uid ` set evs"
  by (auto simp: events_to_delete_def set_remote_events_ids)

lemma created_delete_phase: "created (fst (delete_phase cfg w evs)) = []"
  by (cases "get_local_events_ids cfg w")
     (auto simp: delete_phase_def prepend_def created_append created_delete_loop
                 log_get_local_events_ids
           dest: arg_cong [where f = "\<lambda>p. created (fst p)"] split: sum.splits)

lemma deleted_delete_phase_ids:
  "snd (get_local_events_ids cfg w) = Inr ids \<Longrightarrow>
   set (deleted (fst (delete_phase cfg w evs))) \<subseteq> set (events_to_delete cfg evs ids)"
  using deleted_delete_loop_subset [of w "events_to_delete cfg evs ids"]
        log_get_local_events_ids(1) [of cfg w]
  by (cases "get_local_events_ids cfg w")
     (auto simp: delete_phase_def prepend_def deleted_append)

lemma deleted_delete_phase_none:
  "snd (get_local_events_ids cfg w) = Inl x \<Longrightarrow> deleted (fst (delete_phase cfg w evs)) = []"
  using log_get_local_events_ids(1) [of cfg w]
  by (cases "get_local_events_ids cfg w") (auto simp: delete_phase_def)

lemma deleted_synchronise:
  "set (deleted (fst (synchronise cfg w evs))) \<subseteq> set (deleted (fst (delete_phase cfg w evs)))"
  using deleted_create_loop [of cfg w evs]
  by (cases "create_loop cfg w evs")
     (auto simp: synchronise_def prepend_def deleted_append split: option.splits)

lemma synchronise_complete:
  "snd (create_loop cfg w evs) = None \<Longrightarrow>
   synchronise cfg w evs = prepend (fst (create_loop cfg w evs)) (delete_phase cfg w evs)"
  by (cases "create_loop cfg w evs") (simp add: synchronise_def)

lemma synchronise_aborted:
  "snd (create_loop cfg w evs) = Some x \<Longrightarrow>
   synchronise cfg w evs = (fst (create_loop cfg w evs), Some x)"
  by (cases "create_loop cfg w evs") (simp add: synchronise_def)

section \<open>The window filter\<close>

text \<open>
  C9. The window filter is idempotent: filtering the filtered events again, with the
  same clock reads, the same \<open>sync_all\<close> flag and the same timezone override, gives the
  same sequence of events.
\<close>

theorem C9_filter_idempotent:
  "eligible cfg w (eligible cfg w evs) = eligible cfg w evs"
proof -
  have "filter (\<lambda>e. skip_event cfg w e = Inr False) (map (set_timezone cfg) ys) = ys"
    if "set ys \<subseteq> {e. set_timezone cfg e = e \<and> skip_event cfg w e = Inr False}" for ys
    using that by (induction ys) simp_all
  moreover have "set (eligible cfg w evs)
      \<subseteq> {e. set_timezone cfg e = e \<and> skip_event cfg w e = Inr False}"
    by (auto simp: eligible_def set_timezone_idem)
  ultimately show ?thesis
    by (simp add: eligible_def)
qed

lemma created_subset_eligible:
  "set (created (fst (synchronise cfg w evs))) \<subseteq> set (eligible cfg w evs)"
proof (cases "snd (create_loop cfg w evs)")
  case None
  then show ?thesis
    by (auto simp: synchronise_complete prepend_def created_append
        created_create_loop_complete created_delete_phase)
next
  case (Some x)
  have "set (created (fst (create_loop cfg w evs)))
      \<subseteq> set (filter (wraps w) (eligible cfg w evs))"
    by (subst created_create_loop_prefix) (rule set_take_subset)
  with Some show ?thesis
    by (auto simp: synchronise_aborted)
qed

text \<open>
  C2, as the code has it. In future-only mode the window test reads the end after the
  timezone override of lines 133 to 134, which relabels the zone of an event that is
  not all-day. An event whose end is then zone-aware and strictly before the aware
  current instant does not pass the filter, and is not submitted; when no override is
  configured or the event is all-day, that end is the event's own. In full-sync mode
  every event of the feed passes, whatever its end: no comparison is made, and the
  result does not depend on the clock.
\<close>

theorem C2_window_correctness:
  "(\<not> sync_all cfg \<longrightarrow>
      (\<forall>e\<in>set evs. \<forall>d off.
         ev_end (set_timezone cfg e) = Some d \<and> utcoffset d = Some off \<and>
         wall d - off < now_aware w \<longrightarrow>
         set_timezone cfg e \<notin> set (eligible cfg w evs) \<and>
         set_timezone cfg e \<notin> set (created (fst (synchronise cfg w evs)))) \<and>
      (\<forall>e\<in>set evs. \<forall>d off.
         (timezone cfg = None \<or> is_all_day e) \<and>
         ev_end e = Some d \<and> utcoffset d = Some off \<and> wall d - off < now_aware w \<longrightarrow>
         e \<notin> set (eligible cfg w evs) \<and>
         e \<notin> set (created (fst (synchronise cfg w evs))))) \<and>
   (sync_all cfg \<longrightarrow>
      eligible cfg w evs = map (set_timezone cfg) evs \<and>
      (\<forall>e. skip_event cfg w e = Inr False) \<and>
      (\<forall>w'. eligible cfg w' evs = eligible cfg w evs) \<and>
      (snd (create_loop cfg w evs) = None \<longrightarrow>
         created (fst (synchronise cfg w evs)) = filter (wraps w) (map (set_timezone cfg) evs)))"
proof -
  have out: "set_timezone cfg e \<notin> set (eligible cfg w evs) \<and>
      set_timezone cfg e \<notin> set (created (fst (synchronise cfg w evs)))"
    if "\<not> sync_all cfg" "e \<in> set evs" "ev_end (set_timezone cfg e) = Some d"
      "utcoffset d = Some off" "wall d - off < now_aware w" for e d off
  proof -
    from that have "skip_event cfg w (set_timezone cfg e) = Inr True"
      by (simp add: skip_event_aware)
    then have "set_timezone cfg e \<notin> set (eligible cfg w evs)"
      by (simp add: eligible_def)
    with created_subset_eligible [of cfg w evs] show ?thesis
      by blast
  qed
  have own: "e \<notin> set (eligible cfg w evs) \<and> e \<notin> set (created (fst (synchronise cfg w evs)))"
    if "\<not> sync_all cfg" "e \<in> set evs" "timezone cfg = None \<or> is_all_day e"
      "ev_end e = Some d" "utcoffset d = Some off" "wall d - off < now_aware w" for e d off
  proof -
    from that(3) have "set_timezone cfg e = e"
      by (rule set_timezone_unchanged)
    with out [of e d off] that show ?thesis
      by simp
  qed
  have full: "eligible cfg w' evs = map (set_timezone cfg) evs" if "sync_all cfg" for w'
    using that by (simp add: eligible_def skip_event_sync_all)
  have run: "created (fst (synchronise cfg w evs)) = filter (wraps w) (map (set_timezone cfg) evs)"
    if "sync_all cfg" "snd (create_loop cfg w evs) = None"
    using that
    by (simp add: synchronise_complete prepend_def created_append
        created_create_loop_complete created_delete_phase full)
  from out own full run show ?thesis
    by (simp add: skip_event_sync_all)
qed

theorem C2_window_correctness_witness:
  "timed_event ''n'' (aware (2 * day - 6 * hour) west5)
     \<notin> set (eligible future_west5 (calm_world [])
          [timed_event ''n'' (naive (2 * day - 6 * hour))]) \<and>
   timed_event ''p'' (aware day utc)
     \<notin> set (created (fst (synchronise future_only (calm_world [])
          [timed_event ''p'' (aware day utc), timed_event ''q'' (aware (3 * day) utc)]))) \<and>
   eligible full_sync (calm_world [])
     [timed_event ''p'' (aware day utc), timed_event ''q'' (aware (3 * day) utc)]
     = [timed_event ''p'' (aware day utc), timed_event ''q'' (aware (3 * day) utc)]"
proof -
  let ?n = "timed_event ''n'' (naive (2 * day - 6 * hour))"
  let ?n' = "timed_event ''n'' (aware (2 * day - 6 * hour) west5)"
  let ?p = "timed_event ''p'' (aware day utc)"
  let ?q = "timed_event ''q'' (aware (3 * day) utc)"
  have fo: "\<not> sync_all future_only" "sync_all full_sync" "\<not> sync_all future_west5"
    "timezone future_only = None"
    by (simp_all add: future_only_def full_sync_def future_west5_def)
  have tz: "set_timezone full_sync ?p = ?p" "set_timezone full_sync ?q = ?q"
    by (simp_all add: set_timezone_def full_sync_def)
  have n': "set_timezone future_west5 ?n = ?n'"
    by (simp add: set_timezone_def future_west5_def replace_timezone_def replace_tzinfo_def
        timed_event_def naive_def aware_def)
  have n: "ev_end ?n' = Some (aware (2 * day - 6 * hour) west5) \<and>
      utcoffset (aware (2 * day - 6 * hour) west5) = Some (- 5 * hour) \<and>
      wall (aware (2 * day - 6 * hour) west5) - (- 5 * hour) < now_aware (calm_world [])"
    by (simp add: timed_event_def aware_def utcoffset_def west5_def calm_world_def hour_def)
  have p: "(timezone future_only = None \<or> is_all_day ?p) \<and> ev_end ?p = Some (aware day utc) \<and>
      utcoffset (aware day utc) = Some 0 \<and>
      wall (aware day utc) - 0 < now_aware (calm_world [])"
    by (simp add: fo timed_event_def aware_def utcoffset_def utc_def calm_world_def day_def)
  from C2_window_correctness [of future_west5 "[?n]" "calm_world []"] fo n
  have first: "?n' \<notin> set (eligible future_west5 (calm_world []) [?n])"
    by (simp add: n')
  from C2_window_correctness [of future_only "[?p, ?q]" "calm_world []"] fo p
  have second: "?p \<notin> set (created (fst (synchronise future_only (calm_world []) [?p, ?q])))"
    by simp
  from C2_window_correctness [of full_sync "[?p, ?q]" "calm_world []"] fo
  have third: "eligible full_sync (calm_world []) [?p, ?q] = [?p, ?q]"
    by (simp add: tz)
  from first second third show ?thesis
    by (intro conjI)
qed

text \<open>
  The claim C2 as the specification states it fails under a timezone override: the
  event \<open>p\<close> ends, by its own zone-aware end, one hour before now; the override
  relabels that end to the zone five hours behind UTC, which puts it four hours after
  now, so \<open>p\<close> passes the filter and is submitted.
\<close>

theorem C2_counterexample:
  "ev_end (timed_event ''p'' (aware (2 * day - hour) utc)) = Some (aware (2 * day - hour) utc) \<and>
   utcoffset (aware (2 * day - hour) utc) = Some 0 \<and>
   wall (aware (2 * day - hour) utc) - 0 < now_aware (calm_world []) \<and>
   \<not> sync_all future_west5 \<and>
   eligible future_west5 (calm_world []) [timed_event ''p'' (aware (2 * day - hour) utc)]
     = [timed_event ''p'' (aware (2 * day - hour) west5)] \<and>
   synchronise future_west5 (calm_world []) [timed_event ''p'' (aware (2 * day - hour) utc)]
     = ([Create (timed_event ''p'' (aware (2 * day - hour) west5))], None)"
proof -
  let ?p = "timed_event ''p'' (aware (2 * day - hour) utc)"
  let ?p' = "timed_event ''p'' (aware (2 * day - hour) west5)"
  let ?w = "calm_world []"
  have own: "ev_end ?p = Some (aware (2 * day - hour) utc)"
    "utcoffset (aware (2 * day - hour) utc) = Some 0"
    "wall (aware (2 * day - hour) utc) - 0 < now_aware ?w"
    by (simp_all add: timed_event_def aware_def utcoffset_def utc_def calm_world_def hour_def)
  have cfg: "\<not> sync_all future_west5" "\<not> keep_local future_west5"
    by (simp_all add: future_west5_def)
  have tz: "set_timezone future_west5 ?p = ?p'"
    by (simp add: set_timezone_def future_west5_def replace_timezone_def replace_tzinfo_def
        timed_event_def aware_def)
  have "skip_event future_west5 ?w ?p'
      = Inr (wall (aware (2 * day - hour) west5) - (- 5 * hour) < now_aware ?w)"
    by (rule skip_event_aware [OF cfg(1)])
       (simp_all add: timed_event_def aware_def utcoffset_def west5_def)
  then have keep: "skip_event future_west5 ?w (set_timezone future_west5 ?p) = Inr False"
    unfolding tz by (simp add: aware_def calm_world_def hour_def)
  have sv: "save_wrapped ?w e = None" for e
    by (simp add: save_wrapped_def wrap_def calm_world_def)
  have el: "eligible future_west5 ?w [?p] = [?p']"
    using keep by (simp add: eligible_def tz)
  have cl: "create_loop future_west5 ?w [?p] = ([Create ?p'], None)"
    by (simp add: create_loop_kept [OF keep] sv tz prepend_def)
  have "get_local_events_ids future_west5 ?w = ([], Inr [])"
    by (simp add: get_local_events_ids_def future_west5_def calm_world_def search_def)
  then have "delete_phase future_west5 ?w [?p] = ([], None)"
    by (simp add: delete_phase_def cfg events_to_delete_def prepend_def)
  then have run: "synchronise future_west5 ?w [?p] = ([Create ?p'], None)"
    by (simp add: synchronise_def cl prepend_def)
  from own cfg(1) el run show ?thesis
    by (intro conjI)
qed

text \<open>
  C3, as the code has it. In future-only mode an event whose end at the window test
  (after the timezone override; the event's own end when no override is configured or
  the event is all-day) is naive and equal to the naive wall-clock value of now passes
  the filter: an event with a naive end is excluded exactly when now is strictly after
  that end.
\<close>

theorem C3_naive_end_equal_now_retained:
  assumes "\<not> sync_all cfg" and "e \<in> set evs"
  shows "(\<forall>d. ev_end (set_timezone cfg e) = Some d \<and> utcoffset d = None \<longrightarrow>
       (set_timezone cfg e \<in> set (eligible cfg w evs) \<longleftrightarrow> \<not> wall d < now_naive w) \<and>
       (wall d = now_naive w \<longrightarrow> set_timezone cfg e \<in> set (eligible cfg w evs))) \<and>
    (\<forall>d. (timezone cfg = None \<or> is_all_day e) \<and>
       ev_end e = Some d \<and> utcoffset d = None \<and> wall d = now_naive w \<longrightarrow>
       e \<in> set (eligible cfg w evs))"
proof -
  have eff: "set_timezone cfg e \<in> set (eligible cfg w evs) \<longleftrightarrow> \<not> wall d < now_naive w"
    if "ev_end (set_timezone cfg e) = Some d" "utcoffset d = None" for d
    using that assms by (simp add: in_eligible skip_event_naive)
  have own: "e \<in> set (eligible cfg w evs)"
    if "timezone cfg = None \<or> is_all_day e" "ev_end e = Some d" "utcoffset d = None"
      "wall d = now_naive w" for d
  proof -
    from that(1) have "set_timezone cfg e = e"
      by (rule set_timezone_unchanged)
    with eff [of d] that show ?thesis
      by simp
  qed
  from eff own show ?thesis
    by auto
qed

theorem C3_naive_end_equal_now_retained_witness:
  "timed_event ''n'' (naive (2 * day))
     \<in> set (eligible future_only (calm_world []) [timed_event ''n'' (naive (2 * day))]) \<and>
   all_day_event ''a'' (naive (2 * day))
     \<in> set (eligible future_west5 (calm_world []) [all_day_event ''a'' (naive (2 * day))])"
proof -
  let ?n = "timed_event ''n'' (naive (2 * day))"
  let ?a = "all_day_event ''a'' (naive (2 * day))"
  have cfg: "\<not> sync_all future_only" "\<not> sync_all future_west5"
    by (simp_all add: future_only_def future_west5_def)
  have n: "(timezone future_only = None \<or> is_all_day ?n) \<and>
      ev_end ?n = Some (naive (2 * day)) \<and> utcoffset (naive (2 * day)) = None \<and>
      wall (naive (2 * day)) = now_naive (calm_world [])"
    by (simp add: future_only_def timed_event_def naive_def utcoffset_def calm_world_def)
  have a: "(timezone future_west5 = None \<or> is_all_day ?a) \<and>
      ev_end ?a = Some (naive (2 * day)) \<and> utcoffset (naive (2 * day)) = None \<and>
      wall (naive (2 * day)) = now_naive (calm_world [])"
    by (simp add: all_day_event_def naive_def utcoffset_def calm_world_def)
  from C3_naive_end_equal_now_retained [OF cfg(1), of ?n "[?n]" "calm_world []"] n
  have first: "?n \<in> set (eligible future_only (calm_world []) [?n])"
    by simp
  from C3_naive_end_equal_now_retained [OF cfg(2), of ?a "[?a]" "calm_world []"] a
  have second: "?a \<in> set (eligible future_west5 (calm_world []) [?a])"
    by simp
  from first second show ?thesis
    by (intro conjI)
qed

text \<open>
  The claim C3 as the specification states it fails: with \<open>sync_all\<close> off and no
  override, the event \<open>n\<close> whose naive end is the naive now is not excluded, and it is
  submitted.
\<close>

theorem C3_counterexample:
  "ev_end (timed_event ''n'' (naive (2 * day))) = Some (naive (2 * day)) \<and>
   tzinfo (naive (2 * day)) = None \<and>
   wall (naive (2 * day)) = now_naive (calm_world []) \<and>
   \<not> sync_all future_only \<and> timezone future_only = None \<and>
   eligible future_only (calm_world []) [timed_event ''n'' (naive (2 * day))]
     = [timed_event ''n'' (naive (2 * day))] \<and>
   created (fst (synchronise future_only (calm_world []) [timed_event ''n'' (naive (2 * day))]))
     = [timed_event ''n'' (naive (2 * day))]"
proof -
  let ?n = "timed_event ''n'' (naive (2 * day))"
  let ?w = "calm_world []"
  have facts: "ev_end ?n = Some (naive (2 * day))" "tzinfo (naive (2 * day)) = None"
    "wall (naive (2 * day)) = now_naive ?w" "\<not> sync_all future_only"
    "timezone future_only = None"
    by (simp_all add: timed_event_def naive_def calm_world_def future_only_def)
  have kl: "\<not> keep_local future_only"
    by (simp add: future_only_def)
  have tz: "set_timezone future_only ?n = ?n"
    by (simp add: set_timezone_def future_only_def)
  have "skip_event future_only ?w ?n = Inr (wall (naive (2 * day)) < now_naive ?w)"
    by (rule skip_event_naive [OF facts(4,1)]) (simp add: utcoffset_def naive_def)
  then have keep: "skip_event future_only ?w (set_timezone future_only ?n) = Inr False"
    unfolding tz by (simp add: facts(3))
  have sv: "save_wrapped ?w e = None" for e
    by (simp add: save_wrapped_def wrap_def calm_world_def)
  have el: "eligible future_only ?w [?n] = [?n]"
    using keep by (simp add: eligible_def tz)
  have cl: "create_loop future_only ?w [?n] = ([Create ?n], None)"
    by (simp add: create_loop_kept [OF keep] sv tz prepend_def)
  have "get_local_events_ids future_only ?w = ([], Inr [])"
    by (simp add: get_local_events_ids_def future_only_def calm_world_def search_def)
  then have "delete_phase future_only ?w [?n] = ([], None)"
    by (simp add: delete_phase_def kl events_to_delete_def prepend_def)
  then have "synchronise future_only ?w [?n] = ([Create ?n], None)"
    by (simp add: synchronise_def cl prepend_def)
  then have "created (fst (synchronise future_only ?w [?n])) = [?n]"
    by simp
  with facts el show ?thesis
    by (intro conjI)
qed

lemma future_listing:
  assumes "\<not> sync_all cfg" and "snd (get_local_events_ids cfg w) = Inr ids"
  shows "set ids = {u. \<exists>r\<in>set (local_events w). utcnow w < res_end r \<and> first_uid r = Inr u}"
proof -
  from assms have "collect_uids [] (search w (utcnow w)) = Inr ids"
    by (auto simp: get_local_events_ids_def split: option.splits if_splits)
  from set_collect_uids [OF this] show ?thesis
    by (auto simp: search_def)
qed

lemma delete_phase_complete:
  assumes "\<not> keep_local cfg" and "snd (get_local_events_ids cfg w) = Inr ids"
    and "snd (delete_phase cfg w evs) = None"
  shows "deleted (fst (delete_phase cfg w evs)) = events_to_delete cfg evs ids"
proof -
  obtain lg where lg: "get_local_events_ids cfg w = (lg, Inr ids)"
    using assms(2) by (cases "get_local_events_ids cfg w") simp
  then have "deleted lg = []"
    using log_get_local_events_ids(1) [of cfg w] by simp
  moreover from assms(1,3) lg
  have "snd (delete_loop w (events_to_delete cfg evs ids)) = None"
    by (simp add: delete_phase_def prepend_def)
  ultimately show ?thesis
    using assms(1) lg
    by (simp add: delete_phase_def prepend_def deleted_append deleted_delete_loop_complete)
qed

lemma synchronise_None:
  assumes "snd (synchronise cfg w evs) = None"
  shows "snd (create_loop cfg w evs) = None" and "snd (delete_phase cfg w evs) = None"
proof -
  show c: "snd (create_loop cfg w evs) = None"
  proof (cases "snd (create_loop cfg w evs)")
    case (Some x)
    with assms show ?thesis by (simp add: synchronise_aborted)
  qed simp
  with assms show "snd (delete_phase cfg w evs) = None"
    by (simp add: synchronise_complete prepend_def)
qed

section \<open>The end-to-end scenario, run\<close>

lemma scenario_set_timezone: "set_timezone future_only e = e"
  by (simp add: set_timezone_def future_only_def)

lemma scenario_listing:
  "get_local_events_ids future_only scenario_world = ([], Inr [''x'', ''z''])"
  by (simp add: get_local_events_ids_def future_only_def scenario_world_def calm_world_def
      search_def upcoming_def day_def first_uid_def insert_id_def)

lemma scenario_skip:
  "skip_event future_only scenario_world (timed_event ''x'' (naive day)) = Inr True"
  "skip_event future_only scenario_world (timed_event ''y'' (naive (3 * day))) = Inr False"
  by (simp_all add: skip_event_def dt_gt_def utcoffset_def timed_event_def naive_def
      scenario_world_def calm_world_def day_def future_only_def)

lemma scenario_save: "save_wrapped scenario_world e = None"
  by (simp add: save_wrapped_def wrap_def scenario_world_def calm_world_def)

lemma scenario_eligible:
  "eligible future_only scenario_world scenario_events = [timed_event ''y'' (naive (3 * day))]"
  by (simp add: eligible_def scenario_events_def scenario_set_timezone scenario_skip)

lemma scenario_create_loop:
  "create_loop future_only scenario_world scenario_events
     = ([Create (timed_event ''y'' (naive (3 * day)))], None)"
  by (simp add: scenario_events_def create_loop_skipped create_loop_kept
      scenario_set_timezone scenario_skip scenario_save prepend_def)

lemma scenario_events_to_delete:
  "events_to_delete future_only scenario_events [''x'', ''z''] = [''z'']"
  by (simp add: events_to_delete_def remote_events_ids_def scenario_events_def
      scenario_set_timezone timed_event_def)

lemma scenario_delete: "delete scenario_world url = None"
  by (simp add: scenario_world_def calm_world_def)

lemma scenario_run:
  "synchronise future_only scenario_world scenario_events
     = ([Create (timed_event ''y'' (naive (3 * day))), Delete ''z''], None)"
proof -
  have kl: "\<not> keep_local future_only"
    by (simp add: future_only_def)
  have "delete_phase future_only scenario_world scenario_events = ([Delete ''z''], None)"
    by (simp add: delete_phase_def kl scenario_listing scenario_events_to_delete
        scenario_delete prepend_def)
  then show ?thesis
    by (simp add: synchronise_def scenario_create_loop prepend_def)
qed

section \<open>The delete phase\<close>

text \<open>
  C8. The computed set of identities to delete is a subset of the destination identity
  listing and shares no identity with the eligible events of the feed; and every delete
  request of a run is for an identity of that set.
\<close>

theorem C8_deletion_soundness:
  "set (events_to_delete cfg evs ids) \<subseteq> set ids \<and>
   set (events_to_delete cfg evs ids) \<inter> uid ` set (eligible cfg w evs) = {} \<and>
   (snd (get_local_events_ids cfg w) = Inr ids \<longrightarrow>
      set (deleted (fst (synchronise cfg w evs))) \<subseteq> set (events_to_delete cfg evs ids))"
proof (intro conjI impI)
  show "set (events_to_delete cfg evs ids) \<subseteq> set ids"
    by (auto simp: set_events_to_delete)
  have "uid ` set (eligible cfg w evs) \<subseteq> uid ` set evs"
    using eligible_subset [of cfg w evs] by (auto simp: uid_set_timezone)
  then show "set (events_to_delete cfg evs ids) \<inter> uid ` set (eligible cfg w evs) = {}"
    by (auto simp: set_events_to_delete)
next
  assume "snd (get_local_events_ids cfg w) = Inr ids"
  from deleted_delete_phase_ids [OF this] deleted_synchronise [of cfg w evs]
  show "set (deleted (fst (synchronise cfg w evs))) \<subseteq> set (events_to_delete cfg evs ids)"
    by blast
qed

theorem C8_deletion_soundness_witness:
  "snd (get_local_events_ids future_only scenario_world) = Inr [''x'', ''z''] \<and>
   set (deleted (fst (synchronise future_only scenario_world scenario_events)))
     \<subseteq> set (events_to_delete future_only scenario_events [''x'', ''z'']) \<and>
   set (events_to_delete future_only scenario_events [''x'', ''z'']) \<subseteq> {''x'', ''z''}"
  using C8_deletion_soundness [of future_only scenario_events "[''x'', ''z'']" scenario_world]
  by (simp add: scenario_listing)

text \<open>
  C1, as the code has it. When deletion is enabled and the cycle runs to its end, the
  identities deleted are those of the destination listing that are the UID of no event
  of the feed, eligible or not: line 161 collects the UIDs of all events of the feed.
  In the end-to-end scenario a create is started for \<open>y\<close> only and \<open>z\<close> only is deleted.
\<close>

theorem C1_deleted_is_listing_minus_feed:
  assumes "\<not> keep_local cfg"
    and "snd (get_local_events_ids cfg w) = Inr ids"
    and "snd (synchronise cfg w evs) = None"
  shows "set (deleted (fst (synchronise cfg w evs))) = set ids - uid ` set evs"
proof -
  note ran = synchronise_None [OF assms(3)]
  have "deleted (fst (synchronise cfg w evs)) = deleted (fst (delete_phase cfg w evs))"
    by (simp add: synchronise_complete [OF ran(1)] prepend_def deleted_append
        deleted_create_loop)
  also have "\<dots> = events_to_delete cfg evs ids"
    by (rule delete_phase_complete [OF assms(1,2) ran(2)])
  finally show ?thesis
    by (simp add: set_events_to_delete)
qed

theorem C1_deleted_is_listing_minus_feed_witness:
  "created (fst (synchronise future_only scenario_world scenario_events))
     = [timed_event ''y'' (naive (3 * day))] \<and>
   set (deleted (fst (synchronise future_only scenario_world scenario_events))) = {''z''}"
proof -
  have a: "\<not> keep_local future_only"
    by (simp add: future_only_def)
  have b: "snd (get_local_events_ids future_only scenario_world) = Inr [''x'', ''z'']"
    by (simp add: scenario_listing)
  have c: "snd (synchronise future_only scenario_world scenario_events) = None"
    by (simp add: scenario_run)
  have "set [''x'', ''z''] - uid ` set scenario_events = {''z''}"
    by (auto simp: scenario_events_def timed_event_def)
  with C1_deleted_is_listing_minus_feed [OF a b c] show ?thesis
    by (simp add: scenario_run)
qed

text \<open>
  The claim C1 as the specification states it fails in its own scenario: the destination
  lists \<open>x\<close> and \<open>z\<close>, only \<open>y\<close> is eligible, and the run deletes \<open>z\<close> alone, not the
  listing minus the eligible identities.
\<close>

theorem C1_counterexample:
  "\<not> sync_all future_only \<and> \<not> keep_local future_only \<and>
   snd (get_local_events_ids future_only scenario_world) = Inr [''x'', ''z''] \<and>
   eligible future_only scenario_world scenario_events = [timed_event ''y'' (naive (3 * day))] \<and>
   synchronise future_only scenario_world scenario_events
     = ([Create (timed_event ''y'' (naive (3 * day))), Delete ''z''], None) \<and>
   ''x'' \<notin> set (deleted (fst (synchronise future_only scenario_world scenario_events))) \<and>
   set (deleted (fst (synchronise future_only scenario_world scenario_events)))
     \<noteq> set [''x'', ''z''] - uid ` set (eligible future_only scenario_world scenario_events)"
proof -
  let ?run = "synchronise future_only scenario_world scenario_events"
  have a: "\<not> sync_all future_only" and b: "\<not> keep_local future_only"
    by (simp_all add: future_only_def)
  have c: "snd (get_local_events_ids future_only scenario_world) = Inr [''x'', ''z'']"
    by (simp add: scenario_listing)
  have nx: "''x'' \<notin> set (deleted (fst ?run))"
    by (simp add: scenario_run)
  have "uid (timed_event ''y'' (naive (3 * day))) = ''y''"
    by (simp add: timed_event_def)
  then have "''x'' \<in> set [''x'', ''z''] - uid ` set (eligible future_only scenario_world scenario_events)"
    by (simp add: scenario_eligible)
  with nx have "set (deleted (fst ?run))
      \<noteq> set [''x'', ''z''] - uid ` set (eligible future_only scenario_world scenario_events)"
    by metis
  with a b c nx show ?thesis
    using scenario_eligible scenario_run by (intro conjI)
qed

text \<open>
  C10. In future-only mode the listing the delete phase uses holds only identities of
  destination events occurring after now. So the identity of a destination event that
  lies entirely in the past (and that no other destination event shares) is not in the
  listing nor in the set to delete, and no run sends a delete request for it.
\<close>

theorem C10_past_destination_events_kept:
  assumes "\<not> sync_all cfg"
    and "r \<in> set (local_events w)"
    and "res_end r \<le> utcnow w"
    and "first_uid r = Inr u"
    and "\<forall>r'\<in>set (local_events w). first_uid r' = Inr u \<longrightarrow> r' = r"
  shows "u \<notin> set (deleted (fst (synchronise cfg w evs))) \<and>
    (\<forall>ids. snd (get_local_events_ids cfg w) = Inr ids \<longrightarrow>
       (\<forall>i\<in>set ids. \<exists>r'\<in>set (local_events w). utcnow w < res_end r' \<and> first_uid r' = Inr i) \<and>
       u \<notin> set ids \<and> u \<notin> set (events_to_delete cfg evs ids))"
proof -
  have listing: "(\<forall>i\<in>set ids. \<exists>r'\<in>set (local_events w). utcnow w < res_end r' \<and> first_uid r' = Inr i)
      \<and> u \<notin> set ids \<and> u \<notin> set (events_to_delete cfg evs ids)"
    if ids: "snd (get_local_events_ids cfg w) = Inr ids" for ids
  proof -
    note l = future_listing [OF assms(1) ids]
    have "u \<notin> set ids"
    proof
      assume "u \<in> set ids"
      with l obtain r' where "r' \<in> set (local_events w)" "utcnow w < res_end r'"
        "first_uid r' = Inr u"
        by auto
      with assms(3,5) show False by auto
    qed
    with l show ?thesis
      by (auto simp: set_events_to_delete)
  qed
  have "u \<notin> set (deleted (fst (synchronise cfg w evs)))"
  proof (cases "snd (get_local_events_ids cfg w)")
    case (Inl x)
    from deleted_delete_phase_none [OF this] deleted_synchronise [of cfg w evs]
    show ?thesis by simp
  next
    case (Inr ids)
    from deleted_delete_phase_ids [OF this] deleted_synchronise [of cfg w evs] listing [OF Inr]
    show ?thesis by blast
  qed
  with listing show ?thesis by blast
qed

theorem C10_past_destination_events_kept_witness:
  "snd (get_local_events_ids future_only (calm_world [bygone ''o'', upcoming ''z''])) = Inr [''z''] \<and>
   ''o'' \<notin> set (deleted (fst (synchronise future_only (calm_world [bygone ''o'', upcoming ''z'']) [])))"
proof -
  let ?w = "calm_world [bygone ''o'', upcoming ''z'']"
  have a: "\<not> sync_all future_only"
    by (simp add: future_only_def)
  have b: "bygone ''o'' \<in> set (local_events ?w)"
    by (simp add: calm_world_def)
  have c: "res_end (bygone ''o'') \<le> utcnow ?w"
    by (simp add: calm_world_def bygone_def day_def)
  have d: "first_uid (bygone ''o'') = Inr ''o''"
    by (simp add: first_uid_def bygone_def)
  have e: "\<forall>r'\<in>set (local_events ?w). first_uid r' = Inr ''o'' \<longrightarrow> r' = bygone ''o''"
    by (simp add: calm_world_def first_uid_def upcoming_def)
  have f: "snd (get_local_events_ids future_only ?w) = Inr [''z'']"
    by (simp add: get_local_events_ids_def future_only_def calm_world_def search_def
        upcoming_def bygone_def day_def first_uid_def insert_id_def)
  have "''o'' \<notin> set (deleted (fst (synchronise future_only ?w [])))"
    by (rule C10_past_destination_events_kept [OF a b c d e, THEN conjunct1])
  with f show ?thesis
    by (intro conjI)
qed

section \<open>Runs in the other worlds\<close>

lemma future_not_skipped:
  "now_naive w = 2 * day \<Longrightarrow>
   skip_event future_only w (timed_event u (naive (3 * day))) = Inr False"
  by (simp add: skip_event_def dt_gt_def utcoffset_def timed_event_def naive_def
      day_def future_only_def)

lemma future_only_flags: "\<not> sync_all future_only" "\<not> keep_local future_only"
  by (simp_all add: future_only_def)

lemma uid_timed_event: "uid (timed_event u t) = u"
  by (simp add: timed_event_def)

lemma no_events_to_delete:
  "events_to_delete cfg [] ids = ids"
  by (simp add: events_to_delete_def remote_events_ids_def)

lemma listing_upcoming_2:
  "local_events w = [upcoming a, upcoming b] \<Longrightarrow> utcnow w = 2 * day \<Longrightarrow>
   list_error w = None \<Longrightarrow> a \<noteq> b \<Longrightarrow>
   get_local_events_ids future_only w = ([], Inr [a, b])"
  by (simp add: get_local_events_ids_def future_only_def search_def upcoming_def day_def
      first_uid_def insert_id_def)

lemma listing_upcoming_1:
  "local_events w = [upcoming a] \<Longrightarrow> utcnow w = 2 * day \<Longrightarrow> list_error w = None \<Longrightarrow>
   get_local_events_ids future_only w = ([], Inr [a])"
  by (simp add: get_local_events_ids_def future_only_def search_def upcoming_def day_def
      first_uid_def insert_id_def)



lemma picky_save:
  "save_wrapped (picky_world rs) (timed_event ''d'' t) = Some ValueError"
  "\<not> wraps (picky_world rs) (timed_event ''d'' t)"
  "save_wrapped (picky_world rs) (timed_event ''e'' t) = None"
  "wraps (picky_world rs) (timed_event ''e'' t)"
  by (simp_all add: save_wrapped_def wraps_def wrap_def picky_world_def calm_world_def
      timed_event_def)

lemma picky_create_loop:
  "create_loop future_only (picky_world rs)
     [timed_event ''d'' (naive (3 * day)), timed_event ''e'' (naive (3 * day))]
   = ([LogException (timed_event ''d'' (naive (3 * day))) ValueError,
       Create (timed_event ''e'' (naive (3 * day)))], None)"
proof -
  have n: "now_naive (picky_world rs) = 2 * day"
    by (simp add: picky_world_def calm_world_def)
  show ?thesis
    by (simp add: create_loop_kept scenario_set_timezone future_not_skipped [OF n] picky_save
        caught_def prepend_def)
qed

lemma picky_eligible:
  "eligible future_only (picky_world rs)
     [timed_event ''d'' (naive (3 * day)), timed_event ''e'' (naive (3 * day))]
   = [timed_event ''d'' (naive (3 * day)), timed_event ''e'' (naive (3 * day))]"
proof -
  have n: "now_naive (picky_world rs) = 2 * day"
    by (simp add: picky_world_def calm_world_def)
  show ?thesis
    by (simp add: eligible_def scenario_set_timezone future_not_skipped [OF n])
qed

lemma picky_run:
  "synchronise future_only (picky_world [upcoming ''z''])
     [timed_event ''d'' (naive (3 * day)), timed_event ''e'' (naive (3 * day))]
   = ([LogException (timed_event ''d'' (naive (3 * day))) ValueError,
       Create (timed_event ''e'' (naive (3 * day))), Delete ''z''], None)"
proof -
  let ?w = "picky_world [upcoming ''z'']"
  let ?d = "timed_event ''d'' (naive (3 * day))"
  let ?e = "timed_event ''e'' (naive (3 * day))"
  have l: "get_local_events_ids future_only ?w = ([], Inr [''z''])"
    by (rule listing_upcoming_1) (simp_all add: picky_world_def calm_world_def)
  have t: "events_to_delete future_only [?d, ?e] [''z''] = [''z'']"
    by (simp add: events_to_delete_def remote_events_ids_def scenario_set_timezone
        uid_timed_event)
  have dl: "delete ?w url = None" for url
    by (simp add: picky_world_def calm_world_def)
  have p: "delete_phase future_only ?w [?d, ?e] = ([Delete ''z''], None)"
    by (simp add: delete_phase_def future_only_flags l t dl prepend_def)
  show ?thesis
    unfolding synchronise_def picky_create_loop p by (simp add: prepend_def)
qed

lemma undeletable_run:
  "synchronise future_only (undeletable_world [upcoming ''a'', upcoming ''b'']) []
     = ([Delete ''a''], Some ConnectionError)"
proof -
  let ?w = "undeletable_world [upcoming ''a'', upcoming ''b'']"
  have l: "get_local_events_ids future_only ?w = ([], Inr [''a'', ''b''])"
    by (rule listing_upcoming_2) (simp_all add: undeletable_world_def calm_world_def)
  have dl: "delete ?w url = Some ConnectionError" for url
    by (simp add: undeletable_world_def calm_world_def)
  have p: "delete_phase future_only ?w [] = ([Delete ''a''], Some ConnectionError)"
    by (simp add: delete_phase_def future_only_flags l no_events_to_delete dl prepend_def)
  show ?thesis
    by (simp add: synchronise_def p prepend_def)
qed

lemma offline_init: "init (offline_first 0) = Inl ConnectionError"
  by (simp add: init_def offline_first_def calm_world_def)


section \<open>The create phase and the failures\<close>

text \<open>
  C4, as the code has it. In a cycle whose create loop runs to its end, the events
  submitted to the destination are exactly the eligible events for which \<open>_wrap\<close>
  returned a document (an event for which it raised is logged and skipped before
  anything is sent), in order, whatever the destination holds: no identity is looked
  up there before a create. In a cycle that an exception ends earlier, the events
  submitted are a front part of that list.
\<close>

theorem C4_created_is_wrapped_eligible:
  "created (fst (synchronise cfg w evs))
     = take (length (created (fst (synchronise cfg w evs))))
         (filter (wraps w) (eligible cfg w evs)) \<and>
   (snd (create_loop cfg w evs) = None \<longrightarrow>
      (\<forall>d. created (fst (synchronise cfg (w\<lparr>local_events := d\<rparr>) evs))
         = filter (wraps w) (eligible cfg w evs)))"
proof (intro conjI impI allI)
  show "created (fst (synchronise cfg w evs))
     = take (length (created (fst (synchronise cfg w evs))))
         (filter (wraps w) (eligible cfg w evs))"
  proof (cases "snd (create_loop cfg w evs)")
    case None
    then have "created (fst (synchronise cfg w evs)) = filter (wraps w) (eligible cfg w evs)"
      by (simp add: synchronise_complete prepend_def created_append
          created_create_loop_complete created_delete_phase)
    then show ?thesis by simp
  next
    case (Some x)
    then have "created (fst (synchronise cfg w evs)) = created (fst (create_loop cfg w evs))"
      by (simp add: synchronise_aborted)
    with created_create_loop_prefix [of cfg w evs] show ?thesis by simp
  qed
next
  fix d
  assume ran: "snd (create_loop cfg w evs) = None"
  let ?w = "w\<lparr>local_events := d\<rparr>"
  from ran have c: "snd (create_loop cfg ?w evs) = None"
    by (simp add: create_loop_local_events)
  have "created (fst (synchronise cfg ?w evs)) = filter (wraps ?w) (eligible cfg ?w evs)"
    by (simp add: synchronise_complete [OF c] prepend_def created_append
        created_create_loop_complete [OF c] created_delete_phase)
  then show "created (fst (synchronise cfg ?w evs)) = filter (wraps w) (eligible cfg w evs)"
    by (simp add: eligible_local_events wraps_local_events)
qed

theorem C4_created_is_wrapped_eligible_witness:
  "snd (get_local_events_ids future_only ((picky_world [])\<lparr>local_events := [upcoming ''e'']\<rparr>))
     = Inr [''e''] \<and>
   created (fst (synchronise future_only ((picky_world [])\<lparr>local_events := [upcoming ''e'']\<rparr>)
     [timed_event ''d'' (naive (3 * day)), timed_event ''e'' (naive (3 * day))]))
   = [timed_event ''e'' (naive (3 * day))]"
proof -
  let ?d = "timed_event ''d'' (naive (3 * day))"
  let ?e = "timed_event ''e'' (naive (3 * day))"
  let ?w = "(picky_world [])\<lparr>local_events := [upcoming ''e'']\<rparr>"
  have c: "snd (create_loop future_only (picky_world []) [?d, ?e]) = None"
    by (simp add: picky_create_loop)
  have "get_local_events_ids future_only ?w = ([], Inr [''e''])"
    by (rule listing_upcoming_1) (simp_all add: picky_world_def calm_world_def)
  then have l: "snd (get_local_events_ids future_only ?w) = Inr [''e'']"
    by simp
  from C4_created_is_wrapped_eligible [of future_only "picky_world []" "[?d, ?e]"] c
  have "created (fst (synchronise future_only ?w [?d, ?e]))
      = filter (wraps (picky_world [])) (eligible future_only (picky_world []) [?d, ?e])"
    by blast
  then have "created (fst (synchronise future_only ?w [?d, ?e])) = [?e]"
    by (simp add: picky_eligible picky_save)
  with l show ?thesis
    by (intro conjI)
qed

text \<open>
  The claim C4 as the specification states it fails: \<open>d\<close> and \<open>e\<close> both pass the window
  filter, but \<open>_wrap\<close> raises \<open>ValueError\<close> for \<open>d\<close>, so \<open>d\<close> is logged and skipped and
  never submitted. The events submitted are not the eligible list.
\<close>

theorem C4_counterexample:
  "eligible future_only (picky_world [upcoming ''z''])
     [timed_event ''d'' (naive (3 * day)), timed_event ''e'' (naive (3 * day))]
     = [timed_event ''d'' (naive (3 * day)), timed_event ''e'' (naive (3 * day))] \<and>
   wrap (picky_world [upcoming ''z'']) (timed_event ''d'' (naive (3 * day))) = Inl ValueError \<and>
   synchronise future_only (picky_world [upcoming ''z''])
     [timed_event ''d'' (naive (3 * day)), timed_event ''e'' (naive (3 * day))]
     = ([LogException (timed_event ''d'' (naive (3 * day))) ValueError,
         Create (timed_event ''e'' (naive (3 * day))), Delete ''z''], None) \<and>
   created (fst (synchronise future_only (picky_world [upcoming ''z''])
     [timed_event ''d'' (naive (3 * day)), timed_event ''e'' (naive (3 * day))]))
     = [timed_event ''e'' (naive (3 * day))]"
proof -
  have "wrap (picky_world [upcoming ''z'']) (timed_event ''d'' (naive (3 * day)))
      = Inl ValueError"
    by (simp add: wrap_def picky_world_def calm_world_def timed_event_def)
  moreover have "created (fst (synchronise future_only (picky_world [upcoming ''z''])
      [timed_event ''d'' (naive (3 * day)), timed_event ''e'' (naive (3 * day))]))
      = [timed_event ''e'' (naive (3 * day))]"
    by (simp add: picky_run)
  ultimately show ?thesis
    using picky_eligible picky_run by (intro conjI)
qed




text \<open>
  C6, as the code has it. The delete loop has no handler: when the delete request for
  an identity raises, the cycle ends with that exception. The identities before it in
  iteration order have had their request, those after it get none.
\<close>

theorem C6_delete_failure_ends_cycle:
  assumes "snd (create_loop cfg w evs) = None"
    and "\<not> keep_local cfg"
    and "snd (get_local_events_ids cfg w) = Inr ids"
    and "events_to_delete cfg evs ids = pre @ i # post"
    and "\<forall>j\<in>set pre. delete w (calendar_url w @ j @ ''.ics'') = None"
    and "delete w (calendar_url w @ i @ ''.ics'') = Some x"
  shows "deleted (fst (synchronise cfg w evs)) = pre @ [i] \<and>
    snd (synchronise cfg w evs) = Some x"
proof -
  obtain lg where lg: "get_local_events_ids cfg w = (lg, Inr ids)"
    using assms(3) by (cases "get_local_events_ids cfg w") simp
  then have nolog: "deleted lg = []"
    using log_get_local_events_ids(1) [of cfg w] by simp
  have "delete_loop w (pre @ i # post) = (map Delete (pre @ [i]), Some x)"
    by (rule delete_loop_stops) (use assms(5,6) in simp_all)
  with assms(2,4) lg
  have "delete_phase cfg w evs = (lg @ map Delete (pre @ [i]), Some x)"
    by (simp add: delete_phase_def prepend_def)
  then have "synchronise cfg w evs
      = (fst (create_loop cfg w evs) @ lg @ map Delete (pre @ [i]), Some x)"
    by (simp add: synchronise_complete [OF assms(1)] prepend_def)
  then show ?thesis
    using nolog deleted_create_loop [of cfg w evs] deleted_map_Delete [of "pre @ [i]"]
    by (simp add: deleted_append)
qed

theorem C6_delete_failure_ends_cycle_witness:
  "deleted (fst (synchronise future_only
     (stubborn_world [upcoming ''a'', upcoming ''b'', upcoming ''c'']) [])) = [''a'', ''b''] \<and>
   snd (synchronise future_only
     (stubborn_world [upcoming ''a'', upcoming ''b'', upcoming ''c'']) []) = Some DAVError"
proof -
  let ?w = "stubborn_world [upcoming ''a'', upcoming ''b'', upcoming ''c'']"
  have a: "snd (create_loop future_only ?w []) = None"
    by simp
  have b: "\<not> keep_local future_only"
    by (simp add: future_only_def)
  have c: "snd (get_local_events_ids future_only ?w) = Inr [''a'', ''b'', ''c'']"
    by (simp add: get_local_events_ids_def future_only_def stubborn_world_def calm_world_def
        search_def upcoming_def day_def first_uid_def insert_id_def)
  have d: "events_to_delete future_only [] [''a'', ''b'', ''c''] = [''a''] @ ''b'' # [''c'']"
    by (simp add: no_events_to_delete)
  have e: "\<forall>j\<in>set [''a'']. delete ?w (calendar_url ?w @ j @ ''.ics'') = None"
    by (simp add: stubborn_world_def calm_world_def)
  have f: "delete ?w (calendar_url ?w @ ''b'' @ ''.ics'') = Some DAVError"
    by (simp add: stubborn_world_def calm_world_def)
  from C6_delete_failure_ends_cycle [OF a b c d e f] show ?thesis
    by simp
qed

text \<open>
  The claim C6 as the specification states it fails: with two stale identities and a
  destination that refuses delete requests, the first request raises and the second
  identity never gets its request, in whichever order the two are visited.
\<close>

theorem C6_counterexample:
  "snd (get_local_events_ids future_only (undeletable_world [upcoming ''a'', upcoming ''b'']))
     = Inr [''a'', ''b''] \<and>
   events_to_delete future_only [] [''a'', ''b''] = [''a'', ''b''] \<and>
   synchronise future_only (undeletable_world [upcoming ''a'', upcoming ''b'']) []
     = ([Delete ''a''], Some ConnectionError) \<and>
   ''b'' \<notin> set (deleted (fst (synchronise future_only
     (undeletable_world [upcoming ''a'', upcoming ''b'']) []))) \<and>
   delete_loop (undeletable_world [upcoming ''a'', upcoming ''b'']) [''b'', ''a'']
     = ([Delete ''b''], Some ConnectionError)"
proof -
  let ?w = "undeletable_world [upcoming ''a'', upcoming ''b'']"
  have "get_local_events_ids future_only ?w = ([], Inr [''a'', ''b''])"
    by (rule listing_upcoming_2) (simp_all add: undeletable_world_def calm_world_def)
  then have l: "snd (get_local_events_ids future_only ?w) = Inr [''a'', ''b'']"
    by simp
  have t: "events_to_delete future_only [] [''a'', ''b''] = [''a'', ''b'']"
    by (rule no_events_to_delete)
  have nb: "''b'' \<notin> set (deleted (fst (synchronise future_only ?w [])))"
    by (simp add: undeletable_run)
  have dl: "delete ?w url = Some ConnectionError" for url
    by (simp add: undeletable_world_def calm_world_def)
  have r: "delete_loop ?w [''b'', ''a''] = ([Delete ''b''], Some ConnectionError)"
    by (simp add: dl)
  from l t nb r show ?thesis
    using undeletable_run by (intro conjI)
qed

section \<open>The loop of main\<close>

text \<open>
  C7, as the code has it. If fetching or parsing the feed fails in a cycle, no create
  and no delete is applied in that cycle; the exception leaves \<open>main\<close>, whose loop has
  no handler, so no further cycle is attempted, with or without a sync interval.
\<close>

theorem C7_fetch_failure_ends_run:
  assumes "calendar_lookup (ws k) = None"
    and "remote_get (ws k) = Inl x \<or>
      (\<exists>text. remote_get (ws k) = Inr text \<and> ics_parse (ws k) text = Inl x)"
    and "\<forall>phrase. sync_every = Some phrase \<longrightarrow> dehumanize phrase \<noteq> None"
  shows "run_cycle cfg (ws k) = ([], Some x) \<and>
    main_loop (Suc n) dehumanize cfg sync_every ws k = ([LogInfo ''starting sync''], Raised x)"
proof -
  from assms(1,2) have "init (ws k) = Inl x"
    by (auto simp: init_def)
  then have r: "run_cycle cfg (ws k) = ([], Some x)"
    by (simp add: run_cycle_def)
  show ?thesis
  proof (cases sync_every)
    case None
    with r show ?thesis by simp
  next
    case (Some phrase)
    with assms(3) obtain secs where "dehumanize phrase = Some secs"
      by auto
    with Some r show ?thesis by simp
  qed
qed

theorem C7_fetch_failure_ends_run_witness:
  "run_cycle future_only (offline_first 0) = ([], Some ConnectionError) \<and>
   main (Suc 4) dehumanize_en future_only (Some ''2 minutes'') offline_first
     = ([LogInfo ''starting sync''], Raised ConnectionError)"
proof -
  have a: "calendar_lookup (offline_first 0) = None"
    by (simp add: offline_first_def calm_world_def)
  have b: "remote_get (offline_first 0) = Inl ConnectionError \<or>
      (\<exists>text. remote_get (offline_first 0) = Inr text \<and>
         ics_parse (offline_first 0) text = Inl ConnectionError)"
    by (simp add: offline_first_def calm_world_def)
  have c: "\<forall>phrase. Some ''in 2 minutes'' = Some phrase \<longrightarrow> dehumanize_en phrase \<noteq> None"
    by (simp add: dehumanize_en_def)
  have m: "main (Suc 4) dehumanize_en future_only (Some ''2 minutes'') offline_first
      = main_loop (Suc 4) dehumanize_en future_only (Some ''in 2 minutes'') offline_first 0"
    by (simp add: main_def dehumanize_en_def)
  from C7_fetch_failure_ends_run [where ws = offline_first and k = 0, OF a b c,
      of future_only 4]
  show ?thesis
    unfolding m .
qed

text \<open>
  The claim C7 as the specification states it fails in its second half: with the sync
  interval \<open>2 minutes\<close> and a first download that fails, the run starts one cycle and
  ends with the exception, although the second download would succeed.
\<close>

theorem C7_counterexample:
  "dehumanize_en ''in 2 minutes'' = Some 120 \<and>
   init (offline_first 0) = Inl ConnectionError \<and>
   init (offline_first 1) = Inr scenario_events \<and>
   main (Suc 4) dehumanize_en future_only (Some ''2 minutes'') offline_first
     = ([LogInfo ''starting sync''], Raised ConnectionError) \<and>
   cycles_started (fst (main (Suc 4) dehumanize_en future_only (Some ''2 minutes'')
     offline_first)) = 1"
proof -
  have d: "dehumanize_en ''in 2 minutes'' = Some 120"
    by (simp add: dehumanize_en_def)
  have i: "init (offline_first 1) = Inr scenario_events"
    by (simp add: init_def offline_first_def calm_world_def)
  have r: "run_cycle future_only (offline_first 0) = ([], Some ConnectionError)"
    by (simp add: run_cycle_def offline_init)
  have "main_loop (Suc 4) dehumanize_en future_only (Some ''in 2 minutes'') offline_first 0
      = ([LogInfo ''starting sync''], Raised ConnectionError)"
    using main_loop.simps(2) [of 4 dehumanize_en future_only "Some ''in 2 minutes''"
        offline_first 0]
    by (simp add: d r)
  then have m: "main (Suc 4) dehumanize_en future_only (Some ''2 minutes'') offline_first
      = ([LogInfo ''starting sync''], Raised ConnectionError)"
    by (simp add: main_def d)
  then have "cycles_started (fst (main (Suc 4) dehumanize_en future_only (Some ''2 minutes'')
      offline_first)) = 1"
    by (simp add: cycles_started_def)
  with d i m show ?thesis
    using offline_init by (intro conjI)
qed

end
